theory Spec2Isabelle
  imports Main "HOL-Library.Monad_Syntax"
begin

section \<open>Errors\<close>

text \<open>
  The Python exceptions the modelled code can raise. \<open>datetime.strptime\<close> and
  \<open>datetime.replace\<close> raise \<open>ValueError\<close>; \<open>timedelta(...)\<close> and
  \<open>datetime + timedelta\<close> raise \<open>OverflowError\<close>. The source defines no exception
  class of its own and has no \<open>raise\<close> statement.
\<close>

datatype error = ValueError | OverflowError

section \<open>Datetimes of the local zone\<close>

text \<open>
  Every datetime that \<open>find_free_slots\<close> compares or adds to carries the same
  \<open>tzinfo\<close> object \<open>LOCAL_TZ\<close> (lines 64-67 and 87-95 of calendar_backend.py convert
  whatever comes in). Python compares two aware datetimes with the same \<open>tzinfo\<close> by
  their wall-clock fields and ignores \<open>fold\<close>; \<open>datetime + timedelta\<close> is wall-clock
  arithmetic and gives a datetime with \<open>fold = 0\<close>. A local datetime is therefore
  its wall-clock reading, in microseconds since 0001-01-01T00:00:00 (the smallest
  datetime; the largest is 9999-12-31T23:59:59.999999), and its \<open>fold\<close> attribute,
  which tells the two passes of a repeated hour apart.
\<close>

type_synonym instant = int

record local_datetime =
  wall :: instant
  fold :: bool

definition US_PER_MINUTE :: int where
  "US_PER_MINUTE = 60000000"

definition US_PER_HOUR :: int where
  "US_PER_HOUR = 3600000000"

definition US_PER_DAY :: int where
  "US_PER_DAY = 86400000000"

definition MAX_DATETIME :: instant where
  "MAX_DATETIME = 315537897599999999"

definition valid_datetime :: "instant \<Rightarrow> bool" where
  "valid_datetime t = (0 \<le> t \<and> t \<le> MAX_DATETIME)"

text \<open>
  \<open>timedelta(minutes=m)\<close>: the duration in microseconds. Python normalises to days,
  seconds and microseconds and raises \<open>OverflowError\<close> when the day count has a
  magnitude above 999999999.
\<close>

definition timedelta_minutes :: "int \<Rightarrow> error + int" where
  "timedelta_minutes m =
     (if \<bar>(m * 60) div 86400\<bar> > 999999999 then Inl OverflowError
      else Inr (m * US_PER_MINUTE))"

text \<open>\<open>datetime + timedelta\<close>: \<open>OverflowError\<close> when the sum leaves the datetime range.\<close>

definition datetime_add :: "local_datetime \<Rightarrow> int \<Rightarrow> error + local_datetime" where
  "datetime_add t td =
     (if valid_datetime (wall t + td) then Inr \<lparr>wall = wall t + td, fold = False\<rparr>
      else Inl OverflowError)"

text \<open>
  \<open>max(cursor, b_end)\<close>: the built-in returns its first argument unless the second
  is greater.
\<close>

definition max_datetime :: "local_datetime \<Rightarrow> local_datetime \<Rightarrow> local_datetime" where
  "max_datetime a b = (if wall a < wall b then b else a)"

text \<open>
  \<open>dt.isoformat()\<close> of a local datetime prints its wall-clock fields followed by its
  UTC offset, as in \<open>2025-11-15T09:00:00-08:00\<close>. The string is kept as the two things
  it states. The offset is what the zone database gives America/Los_Angeles for the
  wall-clock reading and the fold; it is a parameter of the model, in microseconds.
\<close>

record iso8601 =
  iso_wall :: instant
  iso_offset :: int

definition isoformat_local :: "(local_datetime \<Rightarrow> int) \<Rightarrow> local_datetime \<Rightarrow> iso8601" where
  "isoformat_local utcoffset dt = \<lparr>iso_wall = wall dt, iso_offset = utcoffset dt\<rparr>"

section \<open>The free-slot computation\<close>

text \<open>
  A free slot is the dictionary
  \<open>{"start": slot_start.isoformat(), "end": slot_end.isoformat()}\<close>.
\<close>

record slot =
  slot_start :: iso8601
  slot_end :: iso8601

text \<open>
  The slot-emitting \<open>while\<close> loop, which the source writes twice with the same body:
  lines 106-112 (\<open>slot_start\<close> running up to \<open>b_start\<close>) and lines 115-120
  (\<open>cursor\<close> running up to \<open>day_end\<close>).
  \<^verbatim>\<open>
      while slot_start + timedelta(minutes=duration_minutes) <= b_start:
          slot_end = slot_start + timedelta(minutes=duration_minutes)
          free_slots.append({"start": slot_start.isoformat(), "end": slot_end.isoformat()})
          slot_start = slot_end
  \<close>
  The loop need not terminate (a zero duration never advances), so the result is an
  option: \<open>None\<close> is a run that never returns. A run that returns gives the final
  value of the loop variable and the extended list, or the exception raised.
\<close>

partial_function (option) slot_loop ::
  "(local_datetime \<Rightarrow> int) \<Rightarrow> int \<Rightarrow> local_datetime \<Rightarrow> local_datetime \<Rightarrow> slot list \<Rightarrow>
   (error + local_datetime \<times> slot list) option"
where
  "slot_loop utcoffset duration_minutes limit cur free_slots =
     (case timedelta_minutes duration_minutes of
        Inl e \<Rightarrow> Some (Inl e)
      | Inr td \<Rightarrow>
         (case datetime_add cur td of
            Inl e \<Rightarrow> Some (Inl e)
          | Inr nxt \<Rightarrow>
             if wall nxt \<le> wall limit
             then slot_loop utcoffset duration_minutes limit nxt
                    (free_slots @ [\<lparr>slot_start = isoformat_local utcoffset cur,
                                     slot_end = isoformat_local utcoffset nxt\<rparr>])
             else Some (Inr (cur, free_slots))))"

declare slot_loop.simps [code]

text \<open>
  The \<open>for b_start, b_end in busy\<close> loop, lines 104-113, threading \<open>cursor\<close> and
  \<open>free_slots\<close>.
\<close>

fun busy_loop ::
  "(local_datetime \<Rightarrow> int) \<Rightarrow> int \<Rightarrow> (local_datetime \<times> local_datetime) list \<Rightarrow>
   local_datetime \<Rightarrow> slot list \<Rightarrow> (error + local_datetime \<times> slot list) option"
where
  "busy_loop utcoffset duration_minutes [] cursor free_slots = Some (Inr (cursor, free_slots))"
| "busy_loop utcoffset duration_minutes ((b_start, b_end) # rest) cursor free_slots =
     (if wall b_start > wall cursor then
        (case slot_loop utcoffset duration_minutes b_start cursor free_slots of
           None \<Rightarrow> None
         | Some (Inl e) \<Rightarrow> Some (Inl e)
         | Some (Inr (_, free_slots')) \<Rightarrow>
             busy_loop utcoffset duration_minutes rest (max_datetime cursor b_end) free_slots')
      else busy_loop utcoffset duration_minutes rest (max_datetime cursor b_end) free_slots)"

text \<open>
  \<open>find_free_slots\<close> from line 99 on: \<open>day_start\<close>, \<open>day_end\<close> and \<open>busy\<close> are the
  values of the local variables of that name, computed in lines 63-97 from the date,
  the work hours and the events of the calendar provider, each converted to the
  local zone. Those lines return nothing themselves; they can raise before line 99 is
  reached (\<open>replace\<close> raises \<open>ValueError\<close> for an hour outside 0..23, and the call of
  the provider can fail), which is outside this definition. The list is sorted by
  start (\<open>busy.sort(key=lambda x: x[0])\<close>, a stable sort, as \<open>sort_key\<close> is).
\<close>

definition find_free_slots ::
  "(local_datetime \<Rightarrow> int) \<Rightarrow> local_datetime \<Rightarrow> local_datetime \<Rightarrow>
   (local_datetime \<times> local_datetime) list \<Rightarrow> int \<Rightarrow> (error + slot list) option"
where
  "find_free_slots utcoffset day_start day_end busy duration_minutes =
     (case busy_loop utcoffset duration_minutes (sort_key (\<lambda>x. wall (fst x)) busy) day_start [] of
        None \<Rightarrow> None
      | Some (Inl e) \<Rightarrow> Some (Inl e)
      | Some (Inr (cursor, free_slots)) \<Rightarrow>
         (case slot_loop utcoffset duration_minutes day_end cursor free_slots of
            None \<Rightarrow> None
          | Some (Inl e) \<Rightarrow> Some (Inl e)
          | Some (Inr (_, free_slots')) \<Rightarrow> Some (Inr free_slots')))"

section \<open>The booking-request parser\<close>

text \<open>
  A datetime as \<open>parse_as_local\<close> builds it: the wall-clock fields and the
  \<open>tzinfo\<close> attribute, \<open>None\<close> on a naive datetime. The only zone object of the
  program is \<open>LOCAL_TZ = zoneinfo.ZoneInfo("America/Los_Angeles")\<close>.
\<close>

datatype tz = LOCAL_TZ

record datetime =
  year :: int
  month :: int
  day :: int
  hour :: int
  minute :: int
  second :: int
  microsecond :: int
  tzinfo :: "tz option"

subsection \<open>The calendar\<close>

definition is_leap :: "int \<Rightarrow> bool" where
  "is_leap y = (y mod 4 = 0 \<and> (y mod 100 \<noteq> 0 \<or> y mod 400 = 0))"

definition days_in_month :: "int \<Rightarrow> int \<Rightarrow> int" where
  "days_in_month y m =
     (if m = 2 then (if is_leap y then 29 else 28)
      else if m = 4 \<or> m = 6 \<or> m = 9 \<or> m = 11 then 30 else 31)"

text \<open>
  The datetime constructor with its range checks: each field out of range is a
  \<open>ValueError\<close>. The result is naive.
\<close>

definition datetime_new :: "int \<Rightarrow> int \<Rightarrow> int \<Rightarrow> int \<Rightarrow> int \<Rightarrow> int \<Rightarrow> error + datetime" where
  "datetime_new Y m d H M S =
     (if 1 \<le> Y \<and> Y \<le> 9999 \<and> 1 \<le> m \<and> m \<le> 12 \<and> 1 \<le> d \<and> d \<le> days_in_month Y m
         \<and> 0 \<le> H \<and> H \<le> 23 \<and> 0 \<le> M \<and> M \<le> 59 \<and> 0 \<le> S \<and> S \<le> 59
      then Inr \<lparr>year = Y, month = m, day = d, hour = H, minute = M, second = S,
                microsecond = 0, tzinfo = None\<rparr>
      else Inl ValueError)"

subsection \<open>\<open>datetime.strptime(dt_str, "%Y-%m-%dT%H:%M:%S")\<close>\<close>

text \<open>
  The standard library turns the format into the regular expression
  \<^verbatim>\<open>(?P<Y>\d\d\d\d)-(?P<m>1[0-2]|0[1-9]|[1-9])-(?P<d>3[0-1]|[1-2]\d|0[1-9]|[1-9]| [1-9])T\<close>
  \<^verbatim>\<open>(?P<H>2[0-3]|[0-1]\d|\d):(?P<M>[0-5]\d|\d):(?P<S>6[0-1]|[0-5]\d|\d)\<close>
  compiled with \<open>IGNORECASE\<close>, matches it at the start of the string, rejects a
  string with characters left over, converts each group with \<open>int\<close> and calls the
  datetime constructor. Every failure is a \<open>ValueError\<close>. A field is followed by a
  separator that is no digit, so the first alternative that matches is the one the
  backtracking matcher ends with.

  A string is a list of characters with codes below 256, among which \<open>\d\<close>
  matches the ten ASCII digits only.
\<close>

definition in_range :: "char \<Rightarrow> char \<Rightarrow> char \<Rightarrow> bool" where
  "in_range lo hi c = ((of_char lo :: nat) \<le> of_char c \<and> (of_char c :: nat) \<le> of_char hi)"

definition is_digit :: "char \<Rightarrow> bool" where
  "is_digit c = in_range (CHR ''0'') (CHR ''9'') c"

definition is_char :: "char \<Rightarrow> char \<Rightarrow> bool" where
  "is_char x c = in_range x x c"

definition digit_value :: "char \<Rightarrow> int" where
  "digit_value c = int (of_char c) - 48"

text \<open>\<open>int(text)\<close> on a matched group: leading blanks are skipped, the rest are digits.\<close>

definition int_of_text :: "string \<Rightarrow> int" where
  "int_of_text s =
     foldl (\<lambda>n c. 10 * n + digit_value c) 0 (dropWhile (\<lambda>c. c = CHR '' '') s)"

fun one_char :: "(char \<Rightarrow> bool) \<Rightarrow> string \<Rightarrow> (int \<times> string) option" where
  "one_char p (a # rest) = (if p a then Some (int_of_text [a], rest) else None)"
| "one_char p [] = None"

fun two_chars :: "(char \<Rightarrow> bool) \<Rightarrow> (char \<Rightarrow> bool) \<Rightarrow> string \<Rightarrow> (int \<times> string) option" where
  "two_chars p q (a # b # rest) = (if p a \<and> q b then Some (int_of_text [a, b], rest) else None)"
| "two_chars p q [a] = None"
| "two_chars p q [] = None"

text \<open>The alternation of the regular expression: the first alternative that matches.\<close>

definition orelse :: "'a option \<Rightarrow> 'a option \<Rightarrow> 'a option" where
  "orelse x y = (case x of Some v \<Rightarrow> Some v | None \<Rightarrow> y)"

fun match_Y :: "string \<Rightarrow> (int \<times> string) option" where
  "match_Y (a # b # c # d # rest) =
     (if is_digit a \<and> is_digit b \<and> is_digit c \<and> is_digit d
      then Some (int_of_text [a, b, c, d], rest) else None)"
| "match_Y _ = None"

definition match_m :: "string \<Rightarrow> (int \<times> string) option" where
  "match_m s =
     orelse (two_chars (is_char (CHR ''1'')) (in_range (CHR ''0'') (CHR ''2'')) s)
    (orelse (two_chars (is_char (CHR ''0'')) (in_range (CHR ''1'') (CHR ''9'')) s)
            (one_char (in_range (CHR ''1'') (CHR ''9'')) s))"

definition match_d :: "string \<Rightarrow> (int \<times> string) option" where
  "match_d s =
     orelse (two_chars (is_char (CHR ''3'')) (in_range (CHR ''0'') (CHR ''1'')) s)
    (orelse (two_chars (in_range (CHR ''1'') (CHR ''2'')) is_digit s)
    (orelse (two_chars (is_char (CHR ''0'')) (in_range (CHR ''1'') (CHR ''9'')) s)
    (orelse (one_char (in_range (CHR ''1'') (CHR ''9'')) s)
            (two_chars (is_char (CHR '' '')) (in_range (CHR ''1'') (CHR ''9'')) s))))"

definition match_H :: "string \<Rightarrow> (int \<times> string) option" where
  "match_H s =
     orelse (two_chars (is_char (CHR ''2'')) (in_range (CHR ''0'') (CHR ''3'')) s)
    (orelse (two_chars (in_range (CHR ''0'') (CHR ''1'')) is_digit s)
            (one_char is_digit s))"

definition match_M :: "string \<Rightarrow> (int \<times> string) option" where
  "match_M s =
     orelse (two_chars (in_range (CHR ''0'') (CHR ''5'')) is_digit s)
            (one_char is_digit s)"

definition match_S :: "string \<Rightarrow> (int \<times> string) option" where
  "match_S s =
     orelse (two_chars (is_char (CHR ''6'')) (in_range (CHR ''0'') (CHR ''1'')) s)
    (orelse (two_chars (in_range (CHR ''0'') (CHR ''5'')) is_digit s)
            (one_char is_digit s))"

text \<open>A literal of the format; \<open>T\<close> also matches \<open>t\<close> under \<open>IGNORECASE\<close>.\<close>

fun literal :: "(char \<Rightarrow> bool) \<Rightarrow> string \<Rightarrow> string option" where
  "literal p (a # rest) = (if p a then Some rest else None)"
| "literal p [] = None"

definition match_format :: "string \<Rightarrow> ((int \<times> int \<times> int \<times> int \<times> int \<times> int) \<times> string) option" where
  "match_format s0 = do {
     (Y, s1) \<leftarrow> match_Y s0;
     s2 \<leftarrow> literal (is_char (CHR ''-'')) s1;
     (m, s3) \<leftarrow> match_m s2;
     s4 \<leftarrow> literal (is_char (CHR ''-'')) s3;
     (d, s5) \<leftarrow> match_d s4;
     s6 \<leftarrow> literal (\<lambda>c. is_char (CHR ''T'') c \<or> is_char (CHR ''t'') c) s5;
     (H, s7) \<leftarrow> match_H s6;
     s8 \<leftarrow> literal (is_char (CHR '':'')) s7;
     (M, s9) \<leftarrow> match_M s8;
     s10 \<leftarrow> literal (is_char (CHR '':'')) s9;
     (S, s11) \<leftarrow> match_S s10;
     Some ((Y, m, d, H, M, S), s11)
   }"

definition strptime :: "string \<Rightarrow> error + datetime" where
  "strptime data_string =
     (case match_format data_string of
        None \<Rightarrow> Inl ValueError
      | Some ((Y, m, d, H, M, S), rest) \<Rightarrow>
          if rest \<noteq> [] then Inl ValueError else datetime_new Y m d H M S)"

subsection \<open>\<open>parse_as_local\<close>, main.py lines 26-44\<close>

definition endswith_Z :: "string \<Rightarrow> bool" where
  "endswith_Z s = (s \<noteq> [] \<and> last s = CHR ''Z'')"

definition parse_as_local :: "string \<Rightarrow> error + datetime" where
  "parse_as_local dt_str =
     (let dt_str = (if endswith_Z dt_str then butlast dt_str else dt_str);
          dt_str = (if length dt_str > 19 then take 19 dt_str else dt_str)
      in case strptime dt_str of
           Inl e \<Rightarrow> Inl e
         | Inr naive \<Rightarrow> Inr (naive\<lparr>tzinfo := Some LOCAL_TZ\<rparr>))"

subsection \<open>\<open>datetime.isoformat()\<close>, as \<open>book\<close> calls it on the parsed datetimes\<close>

text \<open>
  \<open>"%04d-%02d-%02dT%02d:%02d:%02d"\<close> of the wall-clock fields, then the microseconds
  when they are not zero, then the UTC offset of an aware datetime. The offset is what
  the zone database gives for America/Los_Angeles at that wall-clock time; it is a
  parameter here, in whole seconds.
\<close>

definition digit_char :: "nat \<Rightarrow> char" where
  "digit_char n = char_of (48 + n)"

fun decimal :: "nat \<Rightarrow> string" where
  "decimal n = (if n < 10 then [digit_char n] else decimal (n div 10) @ [digit_char (n mod 10)])"

declare decimal.simps [simp del]

text \<open>\<open>"%0wd" % n\<close> for a field that is not negative, as every datetime field is.\<close>

definition format_d :: "nat \<Rightarrow> int \<Rightarrow> string" where
  "format_d w n = (let s = decimal (nat n) in replicate (w - length s) (CHR ''0'') @ s)"

definition format_offset :: "int \<Rightarrow> string" where
  "format_offset off =
     (let sign = (if off < 0 then ''-'' else ''+'');
          a = \<bar>off\<bar>;
          hh = a div 3600; mm = (a mod 3600) div 60; ss = a mod 60
      in sign @ format_d 2 hh @ '':'' @ format_d 2 mm
           @ (if ss \<noteq> 0 then '':'' @ format_d 2 ss else []))"

definition isoformat :: "(datetime \<Rightarrow> int) \<Rightarrow> datetime \<Rightarrow> string" where
  "isoformat utcoffset dt =
     format_d 4 (year dt) @ ''-'' @ format_d 2 (month dt) @ ''-'' @ format_d 2 (day dt)
       @ ''T'' @ format_d 2 (hour dt) @ '':'' @ format_d 2 (minute dt) @ '':''
       @ format_d 2 (second dt)
       @ (if microsecond dt \<noteq> 0 then ''.'' @ format_d 6 (microsecond dt) else [])
       @ (case tzinfo dt of None \<Rightarrow> [] | Some z \<Rightarrow> format_offset (utcoffset dt))"

section \<open>Notions of the specification\<close>

text \<open>
  The instant an ISO string denotes, in microseconds on the UTC time line: the
  wall-clock reading minus the offset.
\<close>

definition utc_of :: "iso8601 \<Rightarrow> int" where
  "utc_of t = iso_wall t - iso_offset t"

text \<open>
  \<open>tiles utcoffset td s k\<close>: \<open>k\<close> slots, back to back on the wall clock and each
  \<open>td\<close> long there, the first starting at \<open>s\<close>.
\<close>

fun tiles :: "(local_datetime \<Rightarrow> int) \<Rightarrow> int \<Rightarrow> local_datetime \<Rightarrow> nat \<Rightarrow> slot list" where
  "tiles utcoffset td s 0 = []"
| "tiles utcoffset td s (Suc k) =
     \<lparr>slot_start = isoformat_local utcoffset s,
      slot_end = isoformat_local utcoffset \<lparr>wall = wall s + td, fold = False\<rparr>\<rparr>
       # tiles utcoffset td \<lparr>wall = wall s + td, fold = False\<rparr> k"

text \<open>
  The wall-clock reading of a calendar date and a time of day: the proleptic
  Gregorian day number minus the one of 0001-01-01, and the time within the day.
  \<open>local_time\<close> is the local datetime with that reading and \<open>fold = 0\<close>.
\<close>

definition days_before_year :: "int \<Rightarrow> int" where
  "days_before_year y = (y - 1) * 365 + (y - 1) div 4 - (y - 1) div 100 + (y - 1) div 400"

definition days_before_month :: "int \<Rightarrow> int \<Rightarrow> int" where
  "days_before_month y m = sum_list (map (days_in_month y) [1..m - 1])"

definition instant_of :: "int \<Rightarrow> int \<Rightarrow> int \<Rightarrow> int \<Rightarrow> int \<Rightarrow> instant" where
  "instant_of y m d H M =
     (days_before_year y + days_before_month y m + d - 1) * US_PER_DAY
       + H * US_PER_HOUR + M * US_PER_MINUTE"

definition local_time :: "int \<Rightarrow> int \<Rightarrow> int \<Rightarrow> int \<Rightarrow> int \<Rightarrow> local_datetime" where
  "local_time y m d H M = \<lparr>wall = instant_of y m d H M, fold = False\<rparr>"

text \<open>
  The offsets of America/Los_Angeles for the wall-clock readings of the year 2025,
  as the zone database has them: eight hours behind UTC until the clocks go from
  02:00 to 03:00 on 9 March, seven hours behind until they go from 02:00 back to
  01:00 on 2 November, eight hours behind after that. A reading of the skipped hour
  has the offset of before the change when \<open>fold = 0\<close> and of after it when
  \<open>fold = 1\<close>; a reading of the repeated hour is the first pass when \<open>fold = 0\<close> and
  the second when \<open>fold = 1\<close>.
\<close>

definition utcoffset_2025 :: "local_datetime \<Rightarrow> int" where
  "utcoffset_2025 dt =
     (if wall dt < instant_of 2025 3 9 2 0 then - 8 * US_PER_HOUR
      else if wall dt < instant_of 2025 3 9 3 0
        then (if fold dt then - 7 * US_PER_HOUR else - 8 * US_PER_HOUR)
      else if wall dt < instant_of 2025 11 2 1 0 then - 7 * US_PER_HOUR
      else if wall dt < instant_of 2025 11 2 2 0
        then (if fold dt then - 8 * US_PER_HOUR else - 7 * US_PER_HOUR)
      else - 8 * US_PER_HOUR)"

text \<open>
  Claim C9 speaks of the input "after stripping a trailing 'Z' and truncating to 19
  characters" and of "the wall-clock pattern YYYY-MM-DDTHH:MM:SS". \<open>cleaned\<close> is the
  former. \<open>wall_clock_pattern\<close> is the latter read character by character: four
  digits, a hyphen, two digits, a hyphen, two digits, the letter T, two digits, a
  colon, two digits, a colon, two digits. \<open>wall_clock_fields\<close> reads the six
  numbers off such a string.
\<close>

definition cleaned :: "string \<Rightarrow> string" where
  "cleaned s = take 19 (if endswith_Z s then butlast s else s)"

definition pattern_classes :: "(char \<Rightarrow> bool) list" where
  "pattern_classes =
     [is_digit, is_digit, is_digit, is_digit, is_char (CHR ''-''),
      is_digit, is_digit, is_char (CHR ''-''),
      is_digit, is_digit, is_char (CHR ''T''),
      is_digit, is_digit, is_char (CHR '':''),
      is_digit, is_digit, is_char (CHR '':''),
      is_digit, is_digit]"

definition wall_clock_pattern :: "string \<Rightarrow> bool" where
  "wall_clock_pattern s = list_all2 (\<lambda>p c. p c) pattern_classes s"

definition wall_clock_fields :: "string \<Rightarrow> int \<times> int \<times> int \<times> int \<times> int \<times> int" where
  "wall_clock_fields s =
     (int_of_text (take 4 s), int_of_text (take 2 (drop 5 s)), int_of_text (take 2 (drop 8 s)),
      int_of_text (take 2 (drop 11 s)), int_of_text (take 2 (drop 14 s)),
      int_of_text (take 2 (drop 17 s)))"

text \<open>The number two digits stand for, and the first nineteen characters of \<open>isoformat\<close>.\<close>

definition field2 :: "char \<Rightarrow> char \<Rightarrow> int" where
  "field2 a b = 10 * digit_value a + digit_value b"

definition wall_clock_text :: "datetime \<Rightarrow> string" where
  "wall_clock_text dt =
     format_d 4 (year dt) @ ''-'' @ format_d 2 (month dt) @ ''-'' @ format_d 2 (day dt)
       @ ''T'' @ format_d 2 (hour dt) @ '':'' @ format_d 2 (minute dt) @ '':''
       @ format_d 2 (second dt)"

section \<open>The slot loop with a positive duration\<close>

lemma timedelta_minutes_Inr:
  "timedelta_minutes d = Inr td \<Longrightarrow> td = d * US_PER_MINUTE"
  by (auto simp: timedelta_minutes_def split: if_splits)

lemma duration_pos: "0 < d \<Longrightarrow> 0 < d * US_PER_MINUTE"
  by (simp add: US_PER_MINUTE_def)

lemma datetime_add_Inr:
  "datetime_add s td = Inr nxt \<Longrightarrow>
     nxt = \<lparr>wall = wall s + td, fold = False\<rparr> \<and> valid_datetime (wall s + td)"
  by (auto simp: datetime_add_def split: if_splits)

lemma wall_max_datetime: "wall (max_datetime a b) = max (wall a) (wall b)"
  by (simp add: max_datetime_def)

lemma slot_loop_terminates:
  assumes "0 < d"
  shows "\<exists>r. slot_loop u d lim s acc = Some r"
proof (induction "nat (wall lim - wall s)" arbitrary: s acc rule: less_induct)
  case less
  show ?case
  proof (cases "timedelta_minutes d")
    case (Inl e)
    then show ?thesis by (subst slot_loop.simps) simp
  next
    case (Inr td)
    then have td: "0 < td"
      using duration_pos [OF assms] timedelta_minutes_Inr [OF Inr] by simp
    show ?thesis
    proof (cases "datetime_add s td")
      case (Inl e)
      then show ?thesis using Inr by (subst slot_loop.simps) simp
    next
      case nxt: (Inr nxt)
      then have n: "wall nxt = wall s + td" using datetime_add_Inr [OF nxt] by simp
      show ?thesis
      proof (cases "wall nxt \<le> wall lim")
        case True
        then have "nat (wall lim - wall nxt) < nat (wall lim - wall s)" using n td by simp
        from less [OF this] obtain r where
          "slot_loop u d lim nxt (acc @ [\<lparr>slot_start = isoformat_local u s,
              slot_end = isoformat_local u nxt\<rparr>]) = Some r" by blast
        then show ?thesis using Inr nxt True by (subst slot_loop.simps) simp
      next
        case False
        then show ?thesis using Inr nxt by (subst slot_loop.simps) simp
      qed
    qed
  qed
qed





section \<open>The loop over the busy intervals\<close>








section \<open>Properties of the returned slots\<close>










text \<open>
  Claim C4. Every returned slot should lie within the work window. The code breaks
  this. In the window 09:00-10:00 of 2025-11-15 a busy interval 11:00-12:00 makes the
  first loop emit four slots up to 11:00, the third ending at 10:30, after
  \<open>day_end\<close>: that loop stops at \<open>b_start\<close> and never looks at \<open>day_end\<close>, as the loop of
  lines 115-120 does. For the date 2025-11-02T09:30:00Z and the hours 1 to 3, with no
  events, \<open>day_start\<close> is 01:00 of the second pass (09:00 UTC), and the second slot
  starts at 01:30 of the first pass, 08:30 UTC, before the window opens.
\<close>

theorem find_free_slots_beyond_window:
  "find_free_slots utcoffset_2025 (local_time 2025 11 15 9 0) (local_time 2025 11 15 10 0)
      [(local_time 2025 11 15 11 0, local_time 2025 11 15 12 0)] 30
     = Some (Inr (tiles utcoffset_2025 (30 * US_PER_MINUTE) (local_time 2025 11 15 9 0) 4))
   \<and> iso_wall (slot_end (tiles utcoffset_2025 (30 * US_PER_MINUTE) (local_time 2025 11 15 9 0) 4 ! 2))
     = instant_of 2025 11 15 10 30
   \<and> wall (local_time 2025 11 15 10 0) < instant_of 2025 11 15 10 30
   \<and> find_free_slots utcoffset_2025 \<lparr>wall = instant_of 2025 11 2 1 0, fold = True\<rparr>
        \<lparr>wall = instant_of 2025 11 2 3 0, fold = True\<rparr> [] 30
     = Some (Inr (tiles utcoffset_2025 (30 * US_PER_MINUTE)
                    \<lparr>wall = instant_of 2025 11 2 1 0, fold = True\<rparr> 4))
   \<and> utc_of (slot_start (tiles utcoffset_2025 (30 * US_PER_MINUTE)
                    \<lparr>wall = instant_of 2025 11 2 1 0, fold = True\<rparr> 4 ! 1))
       < utc_of (isoformat_local utcoffset_2025 \<lparr>wall = instant_of 2025 11 2 1 0, fold = True\<rparr>)"
  by code_simp

section \<open>Runs that return a list: sufficient conditions\<close>

lemma timedelta_minutes_ok:
  "0 < d \<Longrightarrow> d * US_PER_MINUTE \<le> MAX_DATETIME \<Longrightarrow>
     timedelta_minutes d = Inr (d * US_PER_MINUTE)"
  by (simp add: timedelta_minutes_def US_PER_MINUTE_def MAX_DATETIME_def)

lemma slot_loop_stop:
  assumes "timedelta_minutes d = Inr td" and "valid_datetime (wall s + td)"
    and "wall lim < wall s + td"
  shows "slot_loop u d lim s acc = Some (Inr (s, acc))"
  using assms by (subst slot_loop.simps) (simp add: datetime_add_def)



lemma busy_loop_idle:
  assumes "timedelta_minutes d = Inr td" and "0 < td"
  shows "0 \<le> wall c0 \<Longrightarrow> wall c0 + td \<le> MAX_DATETIME \<Longrightarrow>
     \<forall>b\<in>set bs. wall (fst b) < wall c0 + td \<Longrightarrow>
     \<forall>b\<in>set bs. wall (snd b) + td \<le> MAX_DATETIME \<Longrightarrow>
     \<exists>c. busy_loop u d bs c0 acc = Some (Inr (c, acc)) \<and> wall c0 \<le> wall c
        \<and> wall c + td \<le> MAX_DATETIME"
proof (induction bs arbitrary: c0)
  case Nil
  then show ?case by simp
next
  case (Cons b rest)
  obtain b_start b_end where b: "b = (b_start, b_end)" by (cases b)
  have v: "valid_datetime (wall c0 + td)"
    using Cons.prems(1,2) assms(2) by (simp add: valid_datetime_def)
  have lt: "wall b_start < wall c0 + td" using Cons.prems(3) b by simp
  have sl: "slot_loop u d b_start c0 acc = Some (Inr (c0, acc))"
    by (rule slot_loop_stop [OF assms(1) v lt])
  have "\<exists>c. busy_loop u d rest (max_datetime c0 b_end) acc = Some (Inr (c, acc))
      \<and> wall (max_datetime c0 b_end) \<le> wall c \<and> wall c + td \<le> MAX_DATETIME"
  proof (rule Cons.IH)
    show "0 \<le> wall (max_datetime c0 b_end)"
      using Cons.prems(1) by (simp add: wall_max_datetime)
    show "wall (max_datetime c0 b_end) + td \<le> MAX_DATETIME"
      using Cons.prems(2,4) b by (simp add: wall_max_datetime max_def)
    show "\<forall>b\<in>set rest. wall (fst b) < wall (max_datetime c0 b_end) + td"
      using Cons.prems(3) by (fastforce simp: wall_max_datetime)
    show "\<forall>b\<in>set rest. wall (snd b) + td \<le> MAX_DATETIME" using Cons.prems(4) by simp
  qed
  then obtain c where c: "busy_loop u d rest (max_datetime c0 b_end) acc = Some (Inr (c, acc))"
    "wall (max_datetime c0 b_end) \<le> wall c" "wall c + td \<le> MAX_DATETIME" by blast
  have "busy_loop u d (b # rest) c0 acc = Some (Inr (c, acc))" using b sl c(1) by simp
  moreover have "wall c0 \<le> wall c" using c(2) by (simp add: wall_max_datetime)
  ultimately show ?case using c(3) by blast
qed

section \<open>A duration that is not positive\<close>




section \<open>An empty busy list, an empty window, a duration that is not positive\<close>






text \<open>
  Claim C5, amended. Let \<open>day_start\<close> be at or after \<open>day_end\<close>, and let no busy
  interval start at or after \<open>day_start\<close> plus one duration (none does that starts no
  later than \<open>day_end\<close>). If \<open>day_start\<close> and every busy end plus one duration are still
  datetimes, \<open>find_free_slots\<close> returns the empty list.
\<close>

theorem find_free_slots_empty_window:
  assumes "0 < duration_minutes" and "wall day_end \<le> wall day_start" and "0 \<le> wall day_start"
    and "wall day_start + duration_minutes * US_PER_MINUTE \<le> MAX_DATETIME"
    and "\<forall>b\<in>set busy. wall (fst b) < wall day_start + duration_minutes * US_PER_MINUTE"
    and "\<forall>b\<in>set busy. wall (snd b) + duration_minutes * US_PER_MINUTE \<le> MAX_DATETIME"
  shows "find_free_slots utcoffset day_start day_end busy duration_minutes = Some (Inr [])"
proof -
  define td where "td = duration_minutes * US_PER_MINUTE"
  have td: "0 < td" unfolding td_def by (rule duration_pos [OF assms(1)])
  have "td \<le> MAX_DATETIME" using assms(3,4) unfolding td_def [symmetric] by linarith
  then have tm: "timedelta_minutes duration_minutes = Inr td"
    unfolding td_def by (rule timedelta_minutes_ok [OF assms(1)])
  have "\<exists>c. busy_loop utcoffset duration_minutes (sort_key (\<lambda>x. wall (fst x)) busy) day_start []
        = Some (Inr (c, []))
      \<and> wall day_start \<le> wall c \<and> wall c + td \<le> MAX_DATETIME"
  proof (rule busy_loop_idle [OF tm td assms(3)])
    show "wall day_start + td \<le> MAX_DATETIME" using assms(4) td_def by simp
    show "\<forall>b\<in>set (sort_key (\<lambda>x. wall (fst x)) busy). wall (fst b) < wall day_start + td"
      using assms(5) td_def by simp
    show "\<forall>b\<in>set (sort_key (\<lambda>x. wall (fst x)) busy). wall (snd b) + td \<le> MAX_DATETIME"
      using assms(6) td_def by simp
  qed
  then obtain c where
    c: "busy_loop utcoffset duration_minutes (sort_key (\<lambda>x. wall (fst x)) busy) day_start []
        = Some (Inr (c, []))"
    "wall day_start \<le> wall c" "wall c + td \<le> MAX_DATETIME" by blast
  have v: "valid_datetime (wall c + td)"
    using c(2,3) assms(3) td by (simp add: valid_datetime_def)
  have lt: "wall day_end < wall c + td" using c(2) assms(2) td by simp
  have "slot_loop utcoffset duration_minutes day_end c [] = Some (Inr (c, []))"
    by (rule slot_loop_stop [OF tm v lt])
  then show ?thesis using c(1) by (simp add: find_free_slots_def)
qed

text \<open>
  Claim C5 as stated fails twice. With the window 17:00-09:00 a busy interval
  18:00-19:00 makes the first loop emit two slots from 17:00. With no busy interval
  and a duration of 10000000000 minutes, \<open>cursor + timedelta(...)\<close> leaves the datetime
  range and the call raises instead of returning.
\<close>

theorem find_free_slots_empty_window_counterexample:
  "find_free_slots utcoffset_2025 (local_time 2025 11 15 17 0) (local_time 2025 11 15 9 0)
      [(local_time 2025 11 15 18 0, local_time 2025 11 15 19 0)] 30
     = Some (Inr [\<lparr>slot_start = \<lparr>iso_wall = instant_of 2025 11 15 17 0,
                                  iso_offset = - 8 * US_PER_HOUR\<rparr>,
                    slot_end = \<lparr>iso_wall = instant_of 2025 11 15 17 30,
                                iso_offset = - 8 * US_PER_HOUR\<rparr>\<rparr>,
                  \<lparr>slot_start = \<lparr>iso_wall = instant_of 2025 11 15 17 30,
                                  iso_offset = - 8 * US_PER_HOUR\<rparr>,
                    slot_end = \<lparr>iso_wall = instant_of 2025 11 15 18 0,
                                iso_offset = - 8 * US_PER_HOUR\<rparr>\<rparr>])
   \<and> find_free_slots utcoffset_2025 (local_time 2025 11 15 17 0) (local_time 2025 11 15 9 0)
        [] 10000000000
     = Some (Inl OverflowError)"
  by code_simp

text \<open>
  The window 17:00-09:00 with a busy interval 08:00-10:00: nothing is returned.
\<close>

theorem find_free_slots_empty_window_witness:
  "find_free_slots utcoffset_2025 (local_time 2025 11 15 17 0) (local_time 2025 11 15 9 0)
      [(local_time 2025 11 15 8 0, local_time 2025 11 15 10 0)] 30 = Some (Inr [])"
proof -
  have h1: "0 < (30::int)" by simp
  have h2: "wall (local_time 2025 11 15 9 0) \<le> wall (local_time 2025 11 15 17 0)" by code_simp
  have h3: "0 \<le> wall (local_time 2025 11 15 17 0)" by code_simp
  have h4: "wall (local_time 2025 11 15 17 0) + 30 * US_PER_MINUTE \<le> MAX_DATETIME" by code_simp
  have h5: "\<forall>b\<in>set [(local_time 2025 11 15 8 0, local_time 2025 11 15 10 0)].
      wall (fst b) < wall (local_time 2025 11 15 17 0) + 30 * US_PER_MINUTE" by code_simp
  have h6: "\<forall>b\<in>set [(local_time 2025 11 15 8 0, local_time 2025 11 15 10 0)].
      wall (snd b) + 30 * US_PER_MINUTE \<le> MAX_DATETIME" by code_simp
  show ?thesis by (rule find_free_slots_empty_window [OF h1 h2 h3 h4 h5 h6])
qed




section \<open>Characters and the field matchers\<close>

lemma is_digit_code: "is_digit c = (48 \<le> (of_char c :: nat) \<and> (of_char c :: nat) \<le> 57)"
  by (simp add: is_digit_def in_range_def)

lemma in_range_code:
  "in_range (CHR ''0'') (CHR ''1'') c = (48 \<le> (of_char c :: nat) \<and> (of_char c :: nat) \<le> 49)"
  "in_range (CHR ''0'') (CHR ''2'') c = (48 \<le> (of_char c :: nat) \<and> (of_char c :: nat) \<le> 50)"
  "in_range (CHR ''0'') (CHR ''3'') c = (48 \<le> (of_char c :: nat) \<and> (of_char c :: nat) \<le> 51)"
  "in_range (CHR ''0'') (CHR ''5'') c = (48 \<le> (of_char c :: nat) \<and> (of_char c :: nat) \<le> 53)"
  "in_range (CHR ''1'') (CHR ''2'') c = (49 \<le> (of_char c :: nat) \<and> (of_char c :: nat) \<le> 50)"
  "in_range (CHR ''1'') (CHR ''9'') c = (49 \<le> (of_char c :: nat) \<and> (of_char c :: nat) \<le> 57)"
  by (simp_all add: in_range_def)

lemma is_char_code:
  "is_char (CHR ''0'') c = ((of_char c :: nat) = 48)"
  "is_char (CHR ''1'') c = ((of_char c :: nat) = 49)"
  "is_char (CHR ''2'') c = ((of_char c :: nat) = 50)"
  "is_char (CHR ''3'') c = ((of_char c :: nat) = 51)"
  "is_char (CHR ''6'') c = ((of_char c :: nat) = 54)"
  "is_char (CHR '' '') c = ((of_char c :: nat) = 32)"
  "is_char (CHR ''-'') c = ((of_char c :: nat) = 45)"
  "is_char (CHR '':'') c = ((of_char c :: nat) = 58)"
  "is_char (CHR ''T'') c = ((of_char c :: nat) = 84)"
  "is_char (CHR ''t'') c = ((of_char c :: nat) = 116)"
  by (auto simp: is_char_def in_range_def)

lemma is_char_eq: "is_char x c = (c = x)"
  by (auto simp: is_char_def in_range_def)

lemma space_code: "(c = CHR '' '') = ((of_char c :: nat) = 32)"
  using is_char_eq [of "CHR '' ''" c] is_char_code(6) [of c] by simp

lemma int_of_text_1: "is_digit a \<Longrightarrow> int_of_text [a] = digit_value a"
  by (auto simp: int_of_text_def is_digit_code space_code)

lemma int_of_text_2:
  "is_digit a \<Longrightarrow> int_of_text [a, b] = 10 * digit_value a + digit_value b"
  by (auto simp: int_of_text_def is_digit_code space_code)

lemma int_of_text_4:
  "is_digit a \<Longrightarrow> int_of_text [a, b, c, d]
     = 1000 * digit_value a + 100 * digit_value b + 10 * digit_value c + digit_value d"
  by (auto simp: int_of_text_def is_digit_code space_code)

lemma digit_value_range: "is_digit c \<Longrightarrow> 0 \<le> digit_value c \<and> digit_value c \<le> 9"
  by (auto simp: is_digit_code digit_value_def)

lemmas char_codes = is_digit_code in_range_code is_char_code

lemma match_m_two:
  assumes "is_digit a" and "is_digit b"
  shows "match_m (a # b # rest)
       = (if 1 \<le> field2 a b \<and> field2 a b \<le> 12 then Some (field2 a b, rest)
          else if digit_value a \<noteq> 0 then Some (digit_value a, b # rest) else None)"
  using assms int_of_text_1 [OF assms(1)] int_of_text_2 [OF assms(1), of b]
  by (auto simp: match_m_def orelse_def char_codes field2_def digit_value_def)

lemma match_d_two:
  assumes "is_digit a" and "is_digit b"
  shows "match_d (a # b # rest)
       = (if 1 \<le> field2 a b \<and> field2 a b \<le> 31 then Some (field2 a b, rest)
          else if digit_value a \<noteq> 0 then Some (digit_value a, b # rest) else None)"
  using assms int_of_text_1 [OF assms(1)] int_of_text_2 [OF assms(1), of b]
  by (auto simp: match_d_def orelse_def char_codes field2_def digit_value_def)

lemma match_H_two:
  assumes "is_digit a" and "is_digit b"
  shows "match_H (a # b # rest)
       = (if field2 a b \<le> 23 then Some (field2 a b, rest) else Some (digit_value a, b # rest))"
  using assms int_of_text_1 [OF assms(1)] int_of_text_2 [OF assms(1), of b]
  by (auto simp: match_H_def orelse_def char_codes field2_def digit_value_def)

lemma match_M_two:
  assumes "is_digit a" and "is_digit b"
  shows "match_M (a # b # rest)
       = (if field2 a b \<le> 59 then Some (field2 a b, rest) else Some (digit_value a, b # rest))"
  using assms int_of_text_1 [OF assms(1)] int_of_text_2 [OF assms(1), of b]
  by (auto simp: match_M_def orelse_def char_codes field2_def digit_value_def)

lemma match_S_two:
  assumes "is_digit a" and "is_digit b"
  shows "match_S (a # b # rest)
       = (if field2 a b \<le> 61 then Some (field2 a b, rest) else Some (digit_value a, b # rest))"
  using assms int_of_text_1 [OF assms(1)] int_of_text_2 [OF assms(1), of b]
  by (auto simp: match_S_def orelse_def char_codes field2_def digit_value_def)

lemma literal_digit:
  "is_digit b \<Longrightarrow> literal (is_char (CHR ''-'')) (b # rest) = None"
  "is_digit b \<Longrightarrow> literal (is_char (CHR '':'')) (b # rest) = None"
  "is_digit b \<Longrightarrow> literal (\<lambda>c. is_char (CHR ''T'') c \<or> is_char (CHR ''t'') c) (b # rest) = None"
  by (auto simp: char_codes)

lemma field2_range: "is_digit a \<Longrightarrow> is_digit b \<Longrightarrow> 0 \<le> field2 a b \<and> field2 a b \<le> 99"
  by (auto simp: is_digit_code digit_value_def field2_def)

lemma wall_clock_patternE:
  assumes "wall_clock_pattern s"
  obtains y1 y2 y3 y4 m1 m2 d1 d2 H1 H2 M1 M2 S1 S2 where
    "s = [y1, y2, y3, y4, CHR ''-'', m1, m2, CHR ''-'', d1, d2, CHR ''T'',
          H1, H2, CHR '':'', M1, M2, CHR '':'', S1, S2]"
    "is_digit y1" "is_digit y2" "is_digit y3" "is_digit y4" "is_digit m1" "is_digit m2"
    "is_digit d1" "is_digit d2" "is_digit H1" "is_digit H2" "is_digit M1" "is_digit M2"
    "is_digit S1" "is_digit S2"
  using assms unfolding wall_clock_pattern_def pattern_classes_def list_all2_Cons1 is_char_eq
  by auto

lemma digit_not_sep:
  "is_digit b \<Longrightarrow> b \<noteq> CHR ''-'' \<and> b \<noteq> CHR '':'' \<and> b \<noteq> CHR ''T'' \<and> b \<noteq> CHR ''t''"
  by (auto simp: is_digit_code)

lemma step_Y:
  assumes "is_digit a" "is_digit b" "is_digit c" "is_digit d"
  shows "(match_Y (a # b # c # d # CHR ''-'' # rest) \<bind> (\<lambda>(Y, s1). literal (is_char (CHR ''-'')) s1 \<bind> k Y))
       = k (int_of_text [a, b, c, d]) rest"
  using assms by (simp add: is_char_eq)

lemma step_m:
  assumes "is_digit a" "is_digit b"
  shows "(match_m (a # b # CHR ''-'' # rest) \<bind> (\<lambda>(m, s3). literal (is_char (CHR ''-'')) s3 \<bind> k m))
       = (if 1 \<le> field2 a b \<and> field2 a b \<le> 12 then k (field2 a b) rest else None)"
  using assms digit_not_sep [OF assms(2)] by (simp add: match_m_two is_char_eq)

lemma step_d:
  assumes "is_digit a" "is_digit b"
  shows "(match_d (a # b # CHR ''T'' # rest)
            \<bind> (\<lambda>(d, s5). literal (\<lambda>c. is_char (CHR ''T'') c \<or> is_char (CHR ''t'') c) s5 \<bind> k d))
       = (if 1 \<le> field2 a b \<and> field2 a b \<le> 31 then k (field2 a b) rest else None)"
  using assms digit_not_sep [OF assms(2)] by (simp add: match_d_two is_char_eq)

lemma step_H:
  assumes "is_digit a" "is_digit b"
  shows "(match_H (a # b # CHR '':'' # rest) \<bind> (\<lambda>(H, s7). literal (is_char (CHR '':'')) s7 \<bind> k H))
       = (if field2 a b \<le> 23 then k (field2 a b) rest else None)"
  using assms digit_not_sep [OF assms(2)] by (simp add: match_H_two is_char_eq)

lemma step_M:
  assumes "is_digit a" "is_digit b"
  shows "(match_M (a # b # CHR '':'' # rest) \<bind> (\<lambda>(M, s9). literal (is_char (CHR '':'')) s9 \<bind> k M))
       = (if field2 a b \<le> 59 then k (field2 a b) rest else None)"
  using assms digit_not_sep [OF assms(2)] by (simp add: match_M_two is_char_eq)

lemma step_S:
  assumes "is_digit a" "is_digit b"
  shows "(match_S [a, b] \<bind> (\<lambda>(S, s11). Some (k S, s11)))
       = (if field2 a b \<le> 61 then Some (k (field2 a b), []) else Some (k (digit_value a), [b]))"
  using assms by (simp add: match_S_two)

lemma match_format_pattern:
  assumes "is_digit y1" "is_digit y2" "is_digit y3" "is_digit y4" "is_digit m1" "is_digit m2"
    "is_digit d1" "is_digit d2" "is_digit H1" "is_digit H2" "is_digit M1" "is_digit M2"
    "is_digit S1" "is_digit S2"
  shows "match_format [y1, y2, y3, y4, CHR ''-'', m1, m2, CHR ''-'', d1, d2, CHR ''T'',
          H1, H2, CHR '':'', M1, M2, CHR '':'', S1, S2]
      = (if 1 \<le> field2 m1 m2 \<and> field2 m1 m2 \<le> 12 then
           if 1 \<le> field2 d1 d2 \<and> field2 d1 d2 \<le> 31 then
             if field2 H1 H2 \<le> 23 then
               if field2 M1 M2 \<le> 59 then
                 if field2 S1 S2 \<le> 61
                 then Some ((int_of_text [y1, y2, y3, y4], field2 m1 m2, field2 d1 d2,
                             field2 H1 H2, field2 M1 M2, field2 S1 S2), [])
                 else Some ((int_of_text [y1, y2, y3, y4], field2 m1 m2, field2 d1 d2,
                             field2 H1 H2, field2 M1 M2, digit_value S1), [S2])
               else None
             else None
           else None
         else None)"
  unfolding match_format_def
  apply (subst step_Y [OF assms(1-4)])
  apply (subst step_m [OF assms(5,6)])
  apply (subst step_d [OF assms(7,8)])
  apply (subst step_H [OF assms(9,10)])
  apply (subst step_M [OF assms(11,12)])
  apply (subst step_S [OF assms(13,14)])
  apply (rule refl)
  done

section \<open>\<open>strptime\<close> on a string of the shape YYYY-MM-DDTHH:MM:SS\<close>

lemma wall_clock_fields_chars:
  assumes "is_digit m1" "is_digit d1" "is_digit H1" "is_digit M1" "is_digit S1"
  shows "wall_clock_fields [y1, y2, y3, y4, c1, m1, m2, c2, d1, d2, c3, H1, H2, c4, M1, M2, c5, S1, S2]
      = (int_of_text [y1, y2, y3, y4], field2 m1 m2, field2 d1 d2, field2 H1 H2, field2 M1 M2,
         field2 S1 S2)"
  using assms by (simp add: wall_clock_fields_def int_of_text_2 field2_def)


lemma days_in_month_le: "days_in_month y m \<le> 31"
  by (simp add: days_in_month_def)

lemma strptime_regex_fail:
  assumes "\<not> (1 \<le> m \<and> m \<le> 12 \<and> 1 \<le> d \<and> d \<le> 31 \<and> H \<le> 23 \<and> M \<le> 59 \<and> S \<le> 59)"
  shows "datetime_new Y m d H M S = Inl ValueError"
proof -
  have "\<not> (1 \<le> Y \<and> Y \<le> 9999 \<and> 1 \<le> m \<and> m \<le> 12 \<and> 1 \<le> d \<and> d \<le> days_in_month Y m
         \<and> 0 \<le> H \<and> H \<le> 23 \<and> 0 \<le> M \<and> M \<le> 59 \<and> 0 \<le> S \<and> S \<le> 59)"
    using assms days_in_month_le [of Y m] by linarith
  then show ?thesis unfolding datetime_new_def by (rule if_not_P)
qed

lemma strptime_chars:
  assumes "is_digit y1" "is_digit y2" "is_digit y3" "is_digit y4" "is_digit m1" "is_digit m2"
    "is_digit d1" "is_digit d2" "is_digit H1" "is_digit H2" "is_digit M1" "is_digit M2"
    "is_digit S1" "is_digit S2"
  shows "strptime [y1, y2, y3, y4, CHR ''-'', m1, m2, CHR ''-'', d1, d2, CHR ''T'',
          H1, H2, CHR '':'', M1, M2, CHR '':'', S1, S2]
      = datetime_new (int_of_text [y1, y2, y3, y4]) (field2 m1 m2) (field2 d1 d2)
          (field2 H1 H2) (field2 M1 M2) (field2 S1 S2)"
proof -
  note mf = match_format_pattern [OF assms]
  show ?thesis
  proof (cases "1 \<le> field2 m1 m2 \<and> field2 m1 m2 \<le> 12 \<and> 1 \<le> field2 d1 d2 \<and> field2 d1 d2 \<le> 31
      \<and> field2 H1 H2 \<le> 23 \<and> field2 M1 M2 \<le> 59")
    case True
    show ?thesis
    proof (cases "field2 S1 S2 \<le> 61")
      case S: True
      have "match_format [y1, y2, y3, y4, CHR ''-'', m1, m2, CHR ''-'', d1, d2, CHR ''T'',
          H1, H2, CHR '':'', M1, M2, CHR '':'', S1, S2]
        = Some ((int_of_text [y1, y2, y3, y4], field2 m1 m2, field2 d1 d2,
                             field2 H1 H2, field2 M1 M2, field2 S1 S2), [])"
        unfolding mf using True S by (simp only: if_True simp_thms)
      then show ?thesis unfolding strptime_def by (simp only: option.case prod.case if_False simp_thms)
    next
      case S: False
      have "match_format [y1, y2, y3, y4, CHR ''-'', m1, m2, CHR ''-'', d1, d2, CHR ''T'',
          H1, H2, CHR '':'', M1, M2, CHR '':'', S1, S2]
        = Some ((int_of_text [y1, y2, y3, y4], field2 m1 m2, field2 d1 d2,
                             field2 H1 H2, field2 M1 M2, digit_value S1), [S2])"
        unfolding mf using True S by (simp only: if_True if_False simp_thms)
      then have "strptime [y1, y2, y3, y4, CHR ''-'', m1, m2, CHR ''-'', d1, d2, CHR ''T'',
          H1, H2, CHR '':'', M1, M2, CHR '':'', S1, S2] = Inl ValueError"
        unfolding strptime_def by simp
      moreover have "datetime_new (int_of_text [y1, y2, y3, y4]) (field2 m1 m2) (field2 d1 d2)
          (field2 H1 H2) (field2 M1 M2) (field2 S1 S2) = Inl ValueError"
        by (rule strptime_regex_fail) (use S in linarith)
      ultimately show ?thesis by simp
    qed
  next
    case False
    have "match_format [y1, y2, y3, y4, CHR ''-'', m1, m2, CHR ''-'', d1, d2, CHR ''T'',
          H1, H2, CHR '':'', M1, M2, CHR '':'', S1, S2] = None"
      unfolding mf using False by (auto simp only: if_True if_False simp_thms split: if_splits)
    then have "strptime [y1, y2, y3, y4, CHR ''-'', m1, m2, CHR ''-'', d1, d2, CHR ''T'',
          H1, H2, CHR '':'', M1, M2, CHR '':'', S1, S2] = Inl ValueError"
      unfolding strptime_def by simp
    moreover have "datetime_new (int_of_text [y1, y2, y3, y4]) (field2 m1 m2) (field2 d1 d2)
          (field2 H1 H2) (field2 M1 M2) (field2 S1 S2) = Inl ValueError"
      by (rule strptime_regex_fail) (use False in linarith)
    ultimately show ?thesis by simp
  qed
qed


lemma strptime_pattern:
  assumes "wall_clock_pattern s"
  shows "strptime s = (case wall_clock_fields s of (Y, m, d, H, M, S) \<Rightarrow> datetime_new Y m d H M S)"
  using assms
proof (rule wall_clock_patternE)
  fix y1 y2 y3 y4 m1 m2 d1 d2 H1 H2 M1 M2 S1 S2
  assume s: "s = [y1, y2, y3, y4, CHR ''-'', m1, m2, CHR ''-'', d1, d2, CHR ''T'',
          H1, H2, CHR '':'', M1, M2, CHR '':'', S1, S2]"
    and dg: "is_digit y1" "is_digit y2" "is_digit y3" "is_digit y4" "is_digit m1" "is_digit m2"
    "is_digit d1" "is_digit d2" "is_digit H1" "is_digit H2" "is_digit M1" "is_digit M2"
    "is_digit S1" "is_digit S2"
  show ?thesis
    unfolding s strptime_chars [OF dg]
      wall_clock_fields_chars [OF dg(5) dg(7) dg(9) dg(11) dg(13)]
    by simp
qed

section \<open>Cleaning the input, printing a datetime\<close>

lemma parse_as_local_cleaned:
  "parse_as_local s = (case strptime (cleaned s) of
       Inl e \<Rightarrow> Inl e | Inr naive \<Rightarrow> Inr (naive\<lparr>tzinfo := Some LOCAL_TZ\<rparr>))"
  by (simp add: parse_as_local_def cleaned_def Let_def)

lemma cleaned_prefix:
  assumes "length w = 19" and "last w \<noteq> CHR ''Z''"
  shows "cleaned (w @ suffix) = w"
proof (cases "endswith_Z (w @ suffix)")
  case True
  have w: "w \<noteq> []" using assms(1) by auto
  have "suffix \<noteq> []" using True assms(2) w by (auto simp: endswith_Z_def)
  then have "butlast (w @ suffix) = w @ butlast suffix" by (simp add: butlast_append)
  then show ?thesis using True assms(1) by (simp add: cleaned_def)
next
  case False
  then show ?thesis using assms(1) by (simp add: cleaned_def)
qed

lemma wall_clock_pattern_length: "wall_clock_pattern w \<Longrightarrow> length w = 19 \<and> last w \<noteq> CHR ''Z''"
  by (erule wall_clock_patternE) (auto simp: is_digit_code)

lemma strptime_Inr:
  assumes "strptime s = Inr n"
  shows "datetime_new (year n) (month n) (day n) (hour n) (minute n) (second n) = Inr n"
proof -
  from assms obtain Y m d H M S where n: "datetime_new Y m d H M S = Inr n"
    by (auto simp: strptime_def split: option.splits if_splits)
  then have "year n = Y \<and> month n = m \<and> day n = d \<and> hour n = H \<and> minute n = M \<and> second n = S"
    by (auto simp: datetime_new_def split: if_splits)
  with n show ?thesis by simp
qed

lemma datetime_new_fields:
  assumes "datetime_new Y m d H M S = Inr n"
  shows "1 \<le> Y \<and> Y \<le> 9999 \<and> 1 \<le> m \<and> m \<le> 12 \<and> 1 \<le> d \<and> d \<le> 31 \<and> 0 \<le> H \<and> H \<le> 23
      \<and> 0 \<le> M \<and> M \<le> 59 \<and> 0 \<le> S \<and> S \<le> 59 \<and> microsecond n = 0 \<and> tzinfo n = None"
proof -
  have "days_in_month Y m \<le> 31" by (rule days_in_month_le)
  with assms show ?thesis by (auto simp: datetime_new_def split: if_splits)
qed

lemma digit_char_digit: "k < 10 \<Longrightarrow> is_digit (digit_char k)"
  by (simp add: is_digit_code digit_char_def)

lemma digit_char_value: "k < 10 \<Longrightarrow> digit_value (digit_char k) = int k"
  by (simp add: digit_value_def digit_char_def)

lemma digit_char_0: "CHR ''0'' = digit_char 0"
proof -
  have "char_of (of_char (CHR ''0'') :: nat) = CHR ''0''" by (rule char_of_char)
  then show ?thesis by (simp add: digit_char_def)
qed

lemma replicate_small:
  "replicate (Suc 0) x = [x]" "replicate 2 x = [x, x]" "replicate 3 x = [x, x, x]"
  by (simp_all add: numeral_2_eq_2 numeral_3_eq_3)

lemma decimal_1: "n < 10 \<Longrightarrow> decimal n = [digit_char n]"
  by (subst decimal.simps) simp

lemma decimal_2: "10 \<le> n \<Longrightarrow> n < 100 \<Longrightarrow> decimal n = [digit_char (n div 10), digit_char (n mod 10)]"
  by (subst decimal.simps) (simp add: decimal_1)

lemma decimal_3:
  "100 \<le> n \<Longrightarrow> n < 1000 \<Longrightarrow>
     decimal n = [digit_char (n div 100), digit_char (n div 10 mod 10), digit_char (n mod 10)]"
  by (subst decimal.simps) (simp add: decimal_2 div_mult2_eq [symmetric])

lemma decimal_4:
  "1000 \<le> n \<Longrightarrow> n < 10000 \<Longrightarrow>
     decimal n = [digit_char (n div 1000), digit_char (n div 100 mod 10),
                  digit_char (n div 10 mod 10), digit_char (n mod 10)]"
  by (subst decimal.simps) (simp add: decimal_3 div_mult2_eq [symmetric])

lemma format_d_2:
  assumes "0 \<le> n" and "n < 100"
  shows "format_d 2 n = [digit_char (nat n div 10), digit_char (nat n mod 10)]"
proof (cases "nat n < 10")
  case True
  then show ?thesis by (simp add: format_d_def decimal_1 digit_char_0)
next
  case False
  then show ?thesis using assms by (simp add: format_d_def decimal_2)
qed

lemma format_d_4:
  assumes "0 \<le> n" and "n < 10000"
  shows "format_d 4 n = [digit_char (nat n div 1000), digit_char (nat n div 100 mod 10),
                  digit_char (nat n div 10 mod 10), digit_char (nat n mod 10)]"
proof -
  consider "nat n < 10" | "10 \<le> nat n" "nat n < 100" | "100 \<le> nat n" "nat n < 1000"
    | "1000 \<le> nat n" "nat n < 10000" using assms by linarith
  then show ?thesis
  proof cases
    case 1
    then have "decimal (nat n) = [digit_char (nat n)]" by (rule decimal_1)
    then show ?thesis using 1 by (simp add: format_d_def replicate_small digit_char_0 [symmetric])
  next
    case 2
    then have "decimal (nat n) = [digit_char (nat n div 10), digit_char (nat n mod 10)]"
      by (rule decimal_2)
    then show ?thesis using 2 by (simp add: format_d_def replicate_small digit_char_0 [symmetric])
  next
    case 3
    then have "decimal (nat n)
        = [digit_char (nat n div 100), digit_char (nat n div 10 mod 10), digit_char (nat n mod 10)]"
      by (rule decimal_3)
    then show ?thesis using 3 by (simp add: format_d_def replicate_small digit_char_0 [symmetric])
  next
    case 4
    then have "decimal (nat n) = [digit_char (nat n div 1000), digit_char (nat n div 100 mod 10),
                  digit_char (nat n div 10 mod 10), digit_char (nat n mod 10)]"
      by (rule decimal_4)
    then show ?thesis by (simp add: format_d_def)
  qed
qed

lemma div_mod_digits:
  "0 \<le> n \<Longrightarrow> n < 100 \<Longrightarrow> nat n div 10 < 10 \<and> nat n mod 10 < 10
     \<and> 10 * int (nat n div 10) + int (nat n mod 10) = n"
  by (simp add: zdiv_int zmod_int)

lemma div_mod_digits4:
  assumes "0 \<le> n" and "n < 10000"
  shows "nat n div 1000 < 10 \<and> nat n div 100 mod 10 < 10
     \<and> nat n div 10 mod 10 < 10 \<and> nat n mod 10 < 10
     \<and> 1000 * int (nat n div 1000) + 100 * int (nat n div 100 mod 10)
         + 10 * int (nat n div 10 mod 10) + int (nat n mod 10) = n"
proof -
  define k where "k = nat n"
  have k: "k < 10000" "int k = n" using assms by (simp_all add: k_def)
  have d2: "k div 100 = k div 10 div 10" and d3: "k div 1000 = k div 10 div 10 div 10"
    by (simp_all add: div_mult2_eq [symmetric])
  have e1: "k = 10 * (k div 10) + k mod 10" by simp
  have e2: "k div 10 = 10 * (k div 10 div 10) + k div 10 mod 10" by simp
  have e3: "k div 10 div 10 = 10 * (k div 10 div 10 div 10) + k div 10 div 10 mod 10" by simp
  have b: "k div 1000 < 10" using k(1) by simp
  have "1000 * (k div 1000) + 100 * (k div 100 mod 10) + 10 * (k div 10 mod 10) + k mod 10 = k"
    unfolding d2 d3 using e1 e2 e3 by linarith
  then have "int (1000 * (k div 1000) + 100 * (k div 100 mod 10) + 10 * (k div 10 mod 10)
      + k mod 10) = n" using k(2) by simp
  then show ?thesis using b unfolding k_def by simp
qed

lemma field2_digit_chars:
  assumes "0 \<le> n" and "n < 100"
  shows "is_digit (digit_char (nat n div 10))" "is_digit (digit_char (nat n mod 10))"
    "field2 (digit_char (nat n div 10)) (digit_char (nat n mod 10)) = n"
  using div_mod_digits [OF assms] by (simp_all add: digit_char_digit digit_char_value field2_def)

lemma year_digit_chars:
  assumes "0 \<le> n" and "n < 10000"
  shows "is_digit (digit_char (nat n div 1000))" "is_digit (digit_char (nat n div 100 mod 10))"
    "is_digit (digit_char (nat n div 10 mod 10))" "is_digit (digit_char (nat n mod 10))"
    "int_of_text [digit_char (nat n div 1000), digit_char (nat n div 100 mod 10),
                  digit_char (nat n div 10 mod 10), digit_char (nat n mod 10)] = n"
  using div_mod_digits4 [OF assms]
  by (simp_all add: digit_char_digit digit_char_value int_of_text_4)

lemma isoformat_wall_clock_text:
  "\<exists>suffix. isoformat utcoffset dt = wall_clock_text dt @ suffix"
  by (simp add: isoformat_def wall_clock_text_def)

lemma strptime_wall_clock_text:
  assumes "0 \<le> year dt" "year dt < 10000" "0 \<le> month dt" "month dt < 100"
    "0 \<le> day dt" "day dt < 100" "0 \<le> hour dt" "hour dt < 100"
    "0 \<le> minute dt" "minute dt < 100" "0 \<le> second dt" "second dt < 100"
  shows "wall_clock_pattern (wall_clock_text dt)"
    and "strptime (wall_clock_text dt)
       = datetime_new (year dt) (month dt) (day dt) (hour dt) (minute dt) (second dt)"
proof -
  note Y = year_digit_chars [OF assms(1,2)]
  note m = field2_digit_chars [OF assms(3,4)]
  note d = field2_digit_chars [OF assms(5,6)]
  note H = field2_digit_chars [OF assms(7,8)]
  note M = field2_digit_chars [OF assms(9,10)]
  note S = field2_digit_chars [OF assms(11,12)]
  have w: "wall_clock_text dt =
     [digit_char (nat (year dt) div 1000), digit_char (nat (year dt) div 100 mod 10),
      digit_char (nat (year dt) div 10 mod 10), digit_char (nat (year dt) mod 10), CHR ''-'',
      digit_char (nat (month dt) div 10), digit_char (nat (month dt) mod 10), CHR ''-'',
      digit_char (nat (day dt) div 10), digit_char (nat (day dt) mod 10), CHR ''T'',
      digit_char (nat (hour dt) div 10), digit_char (nat (hour dt) mod 10), CHR '':'',
      digit_char (nat (minute dt) div 10), digit_char (nat (minute dt) mod 10), CHR '':'',
      digit_char (nat (second dt) div 10), digit_char (nat (second dt) mod 10)]"
    unfolding wall_clock_text_def
      format_d_4 [OF assms(1,2)] format_d_2 [OF assms(3,4)] format_d_2 [OF assms(5,6)]
      format_d_2 [OF assms(7,8)] format_d_2 [OF assms(9,10)] format_d_2 [OF assms(11,12)]
    by simp
  show "wall_clock_pattern (wall_clock_text dt)"
    unfolding w wall_clock_pattern_def pattern_classes_def
    using Y(1-4) m(1,2) d(1,2) H(1,2) M(1,2) S(1,2) by (simp add: is_char_eq)
  show "strptime (wall_clock_text dt)
       = datetime_new (year dt) (month dt) (day dt) (hour dt) (minute dt) (second dt)"
    unfolding w
      strptime_chars [OF Y(1-4) m(1,2) d(1,2) H(1,2) M(1,2) S(1,2)]
      Y(5) m(3) d(3) H(3) M(3) S(3) ..
qed

text \<open>
  Claim C10. Whenever \<open>parse_as_local\<close> succeeds on a string, parsing the
  \<open>isoformat\<close> of its result gives the same datetime again, whatever offset the zone
  database reports for it.
\<close>

theorem parse_as_local_isoformat:
  assumes "parse_as_local s = Inr dt"
  shows "parse_as_local (isoformat utcoffset dt) = Inr dt"
proof -
  from assms obtain n where n: "strptime (cleaned s) = Inr n"
    and dt: "dt = n\<lparr>tzinfo := Some LOCAL_TZ\<rparr>"
    by (auto simp: parse_as_local_cleaned split: sum.splits)
  have new: "datetime_new (year n) (month n) (day n) (hour n) (minute n) (second n) = Inr n"
    by (rule strptime_Inr [OF n])
  from datetime_new_fields [OF new] have
    r: "0 \<le> year dt" "year dt < 10000" "0 \<le> month dt" "month dt < 100"
    "0 \<le> day dt" "day dt < 100" "0 \<le> hour dt" "hour dt < 100"
    "0 \<le> minute dt" "minute dt < 100" "0 \<le> second dt" "second dt < 100"
    unfolding dt by simp_all
  obtain suffix where iso: "isoformat utcoffset dt = wall_clock_text dt @ suffix"
    using isoformat_wall_clock_text by blast
  have "cleaned (wall_clock_text dt @ suffix) = wall_clock_text dt"
    using wall_clock_pattern_length [OF strptime_wall_clock_text(1) [OF r]]
    by (simp add: cleaned_prefix)
  then have "strptime (cleaned (isoformat utcoffset dt))
      = datetime_new (year dt) (month dt) (day dt) (hour dt) (minute dt) (second dt)"
    unfolding iso using strptime_wall_clock_text(2) [OF r] by simp
  also have "\<dots> = Inr n" using new unfolding dt by simp
  finally show ?thesis by (simp add: parse_as_local_cleaned dt)
qed

section \<open>Properties of \<open>parse_as_local\<close>\<close>

text \<open>
  An input with a trailing Z and fields without leading zeros: the result prints as
  2025-01-05T01:02:03-08:00, which parses to the same datetime.
\<close>

theorem parse_as_local_isoformat_witness:
  "parse_as_local ''2025-1-5T1:2:3Z''
     = Inr \<lparr>year = 2025, month = 1, day = 5, hour = 1, minute = 2, second = 3,
            microsecond = 0, tzinfo = Some LOCAL_TZ\<rparr>
   \<and> isoformat (\<lambda>dt. - 28800)
        \<lparr>year = 2025, month = 1, day = 5, hour = 1, minute = 2, second = 3,
            microsecond = 0, tzinfo = Some LOCAL_TZ\<rparr> = ''2025-01-05T01:02:03-08:00''
   \<and> parse_as_local ''2025-01-05T01:02:03-08:00''
     = Inr \<lparr>year = 2025, month = 1, day = 5, hour = 1, minute = 2, second = 3,
            microsecond = 0, tzinfo = Some LOCAL_TZ\<rparr>"
proof -
  have p: "parse_as_local ''2025-1-5T1:2:3Z''
     = Inr \<lparr>year = 2025, month = 1, day = 5, hour = 1, minute = 2, second = 3,
            microsecond = 0, tzinfo = Some LOCAL_TZ\<rparr>"
    by code_simp
  have i: "isoformat (\<lambda>dt. - 28800)
        \<lparr>year = 2025, month = 1, day = 5, hour = 1, minute = 2, second = 3,
            microsecond = 0, tzinfo = Some LOCAL_TZ\<rparr> = ''2025-01-05T01:02:03-08:00''"
    by code_simp
  show ?thesis using p i parse_as_local_isoformat [OF p, of "\<lambda>dt. - 28800"] by simp
qed

text \<open>
  Claim C8. \<open>parse_as_local\<close> of 2025-11-14T16:30:00Z and of
  2025-11-14T16:30:00-08:00 is the same datetime, wall clock 2025-11-14T16:30:00 in
  the local zone. In general the result is \<open>strptime\<close> of the first 19 characters of
  the input without one trailing Z, with the local zone attached; so whatever follows
  a wall-clock prefix is discarded and never converted.
\<close>

theorem parse_as_local_discards_offset:
  "parse_as_local ''2025-11-14T16:30:00Z''
     = Inr \<lparr>year = 2025, month = 11, day = 14, hour = 16, minute = 30, second = 0,
            microsecond = 0, tzinfo = Some LOCAL_TZ\<rparr>
   \<and> parse_as_local ''2025-11-14T16:30:00-08:00''
     = Inr \<lparr>year = 2025, month = 11, day = 14, hour = 16, minute = 30, second = 0,
            microsecond = 0, tzinfo = Some LOCAL_TZ\<rparr>
   \<and> parse_as_local dt_str
     = (case strptime (take 19 (if endswith_Z dt_str then butlast dt_str else dt_str)) of
          Inl e \<Rightarrow> Inl e
        | Inr naive \<Rightarrow> Inr (naive\<lparr>tzinfo := Some LOCAL_TZ\<rparr>))
   \<and> (wall_clock_pattern w \<longrightarrow> parse_as_local (w @ suffix) = parse_as_local w)"
proof (intro conjI impI)
  show "parse_as_local ''2025-11-14T16:30:00Z''
     = Inr \<lparr>year = 2025, month = 11, day = 14, hour = 16, minute = 30, second = 0,
            microsecond = 0, tzinfo = Some LOCAL_TZ\<rparr>"
    by code_simp
  show "parse_as_local ''2025-11-14T16:30:00-08:00''
     = Inr \<lparr>year = 2025, month = 11, day = 14, hour = 16, minute = 30, second = 0,
            microsecond = 0, tzinfo = Some LOCAL_TZ\<rparr>"
    by code_simp
  show "parse_as_local dt_str
     = (case strptime (take 19 (if endswith_Z dt_str then butlast dt_str else dt_str)) of
          Inl e \<Rightarrow> Inl e
        | Inr naive \<Rightarrow> Inr (naive\<lparr>tzinfo := Some LOCAL_TZ\<rparr>))"
    using parse_as_local_cleaned [of dt_str] by (simp add: cleaned_def)
next
  assume w: "wall_clock_pattern w"
  from wall_clock_pattern_length [OF w] have l: "length w = 19" "last w \<noteq> CHR ''Z''"
    by simp_all
  have "cleaned (w @ suffix) = w" by (rule cleaned_prefix [OF l])
  moreover have "cleaned (w @ []) = w" by (rule cleaned_prefix [OF l])
  ultimately show "parse_as_local (w @ suffix) = parse_as_local w"
    by (simp add: parse_as_local_cleaned)
qed

text \<open>
  An offset of +05:30 changes nothing either.
\<close>

theorem parse_as_local_discards_offset_witness:
  "parse_as_local ''2025-11-14T16:30:00+05:30'' = parse_as_local ''2025-11-14T16:30:00''
   \<and> parse_as_local ''2025-11-14T16:30:00''
     = Inr \<lparr>year = 2025, month = 11, day = 14, hour = 16, minute = 30, second = 0,
            microsecond = 0, tzinfo = Some LOCAL_TZ\<rparr>"
proof -
  have w: "wall_clock_pattern ''2025-11-14T16:30:00''" by code_simp
  have "parse_as_local (''2025-11-14T16:30:00'' @ ''+05:30'') = parse_as_local ''2025-11-14T16:30:00''"
    using parse_as_local_discards_offset [of "''x''" "''2025-11-14T16:30:00''" "''+05:30''"] w
    by blast
  moreover have "parse_as_local ''2025-11-14T16:30:00''
     = Inr \<lparr>year = 2025, month = 11, day = 14, hour = 16, minute = 30, second = 0,
            microsecond = 0, tzinfo = Some LOCAL_TZ\<rparr>"
    by code_simp
  ultimately show ?thesis by simp
qed

text \<open>
  Claim C9, amended. \<open>parse_as_local\<close> fails exactly when \<open>strptime\<close> rejects the
  cleaned input, and then with \<open>ValueError\<close>; every result is in the local zone. When
  the cleaned input has the shape YYYY-MM-DDTHH:MM:SS, the call succeeds exactly when
  the six numbers are a date of the calendar and a time of day, and returns them.
\<close>

theorem parse_as_local_fails_iff:
  "(parse_as_local s = Inl ValueError \<longleftrightarrow> strptime (cleaned s) = Inl ValueError)
   \<and> (\<forall>e. parse_as_local s = Inl e \<longrightarrow> e = ValueError)
   \<and> (\<forall>dt. parse_as_local s = Inr dt \<longrightarrow> tzinfo dt = Some LOCAL_TZ)
   \<and> (wall_clock_pattern (cleaned s) \<longrightarrow>
        parse_as_local s
          = (case wall_clock_fields (cleaned s) of (Y, m, d, H, M, S) \<Rightarrow>
               (case datetime_new Y m d H M S of
                  Inl e \<Rightarrow> Inl e
                | Inr naive \<Rightarrow> Inr (naive\<lparr>tzinfo := Some LOCAL_TZ\<rparr>))))"
proof (intro conjI allI impI)
  show "parse_as_local s = Inl ValueError \<longleftrightarrow> strptime (cleaned s) = Inl ValueError"
    by (simp add: parse_as_local_cleaned split: sum.splits)
next
  fix e assume "parse_as_local s = Inl e"
  then have "strptime (cleaned s) = Inl e"
    by (simp add: parse_as_local_cleaned split: sum.splits)
  then show "e = ValueError"
    by (auto simp: strptime_def datetime_new_def split: option.splits if_splits)
next
  fix dt assume "parse_as_local s = Inr dt"
  then show "tzinfo dt = Some LOCAL_TZ"
    by (auto simp: parse_as_local_cleaned split: sum.splits)
next
  assume "wall_clock_pattern (cleaned s)"
  from strptime_pattern [OF this] show "parse_as_local s
          = (case wall_clock_fields (cleaned s) of (Y, m, d, H, M, S) \<Rightarrow>
               (case datetime_new Y m d H M S of
                  Inl e \<Rightarrow> Inl e
                | Inr naive \<Rightarrow> Inr (naive\<lparr>tzinfo := Some LOCAL_TZ\<rparr>)))"
    by (simp add: parse_as_local_cleaned split: prod.splits)
qed

text \<open>
  Claim C9 as stated fails in both directions. The string 2025-1-5T1:2:3 has not
  the shape YYYY-MM-DDTHH:MM:SS and parses, since \<open>strptime\<close> takes one-digit fields;
  the string 2025-02-30T10:00:00 has the shape and is rejected, since February has no
  30th day.
\<close>

theorem parse_as_local_fails_iff_counterexample:
  "\<not> wall_clock_pattern (cleaned ''2025-1-5T1:2:3'')
   \<and> parse_as_local ''2025-1-5T1:2:3''
     = Inr \<lparr>year = 2025, month = 1, day = 5, hour = 1, minute = 2, second = 3,
            microsecond = 0, tzinfo = Some LOCAL_TZ\<rparr>
   \<and> wall_clock_pattern (cleaned ''2025-02-30T10:00:00'')
   \<and> parse_as_local ''2025-02-30T10:00:00'' = Inl ValueError"
  by code_simp

text \<open>
  An input with an offset, accepted; an input without seconds, rejected.
\<close>

theorem parse_as_local_fails_iff_witness:
  "wall_clock_pattern (cleaned ''2025-11-14T16:30:00-08:00'')
   \<and> parse_as_local ''2025-11-14T16:30:00-08:00''
     = Inr \<lparr>year = 2025, month = 11, day = 14, hour = 16, minute = 30, second = 0,
            microsecond = 0, tzinfo = Some LOCAL_TZ\<rparr>
   \<and> strptime (cleaned ''2025-11-14T16:30'') = Inl ValueError
   \<and> parse_as_local ''2025-11-14T16:30'' = Inl ValueError"
proof -
  have w: "wall_clock_pattern (cleaned ''2025-11-14T16:30:00-08:00'')" by code_simp
  have f: "(case wall_clock_fields (cleaned ''2025-11-14T16:30:00-08:00'') of
             (Y, m, d, H, M, S) \<Rightarrow>
               (case datetime_new Y m d H M S of
                  Inl e \<Rightarrow> Inl e
                | Inr naive \<Rightarrow> Inr (naive\<lparr>tzinfo := Some LOCAL_TZ\<rparr>)))
      = Inr \<lparr>year = 2025, month = 11, day = 14, hour = 16, minute = 30, second = 0,
            microsecond = 0, tzinfo = Some LOCAL_TZ\<rparr>"
    by code_simp
  have s: "strptime (cleaned ''2025-11-14T16:30'') = Inl ValueError" by code_simp
  have "parse_as_local ''2025-11-14T16:30:00-08:00''
     = Inr \<lparr>year = 2025, month = 11, day = 14, hour = 16, minute = 30, second = 0,
            microsecond = 0, tzinfo = Some LOCAL_TZ\<rparr>"
    using parse_as_local_fails_iff [of "''2025-11-14T16:30:00-08:00''"] w f by simp
  moreover have "parse_as_local ''2025-11-14T16:30'' = Inl ValueError"
    using parse_as_local_fails_iff [of "''2025-11-14T16:30''"] s by blast
  ultimately show ?thesis using w s by simp
qed

end
